theory Spec2Isabelle
  imports
    Complex_Main
    "HOL-Library.AList"
    "HOL-Library.Char_ord"
    "HOL-Library.List_Lexorder"
    "HOL-Library.Multiset"
    "HOL-Library.Sublist"
begin

section \<open>Data model\<close>

text \<open>
  A stored tweet document, as \<^verbatim>\<open>collect_tweets_by_hashtags\<close> writes it
  (data_collector.py, lines 83-96), restricted to the fields graph_builder.py reads.
  Identifiers are strings, compared as Python compares \<^verbatim>\<open>str\<close>: lexicographically,
  character by character. The author's identifier is a string too, as in the Document
  of section 3 of the specification.
\<close>

record tweet =
  author_id :: string
  hashtags :: "string list"
  mentions :: "string list"

text \<open>
  A networkx graph. \<open>nodes\<close> lists the node identifiers in insertion order (the order in
  which \<^verbatim>\<open>G.nodes\<close>, \<^verbatim>\<open>G.in_degree()\<close> and \<^verbatim>\<open>G.degree()\<close> iterate). \<open>edges\<close> maps a
  pair \<open>(u, v)\<close> to the \<^verbatim>\<open>weight\<close> attribute of the edge, every pair occurring at most
  once. For an \<^verbatim>\<open>nx.DiGraph\<close> (\<open>is_directed\<close> true) the pair is the ordered edge from
  \<open>u\<close> to \<open>v\<close>; for an \<^verbatim>\<open>nx.Graph\<close> one entry stands for the unordered edge. Every graph
  that \<^verbatim>\<open>SocialNetworkGraphBuilder\<close> creates is an \<^verbatim>\<open>nx.DiGraph\<close> (lines 14-16).
\<close>

record graph =
  is_directed :: bool
  nodes :: "string list"
  edges :: "((string \<times> string) \<times> nat) list"

definition DiGraph :: graph where
  "DiGraph = \<lparr>is_directed = True, nodes = [], edges = []\<rparr>"

definition number_of_nodes :: "graph \<Rightarrow> nat" where
  "number_of_nodes g = length (nodes g)"

definition number_of_edges :: "graph \<Rightarrow> nat" where
  "number_of_edges g = length (edges g)"

definition add_node :: "string \<Rightarrow> graph \<Rightarrow> graph" where
  "add_node n g = (if n \<in> set (nodes g) then g else g\<lparr>nodes := nodes g @ [n]\<rparr>)"

text \<open>
  \<^verbatim>\<open>G.add_edge(u, v, weight=w)\<close> on a directed graph: both endpoints become nodes
  (\<open>u\<close> first), and the edge's weight is set, overwriting that of an edge already there.
\<close>

definition add_edge :: "string \<Rightarrow> string \<Rightarrow> nat \<Rightarrow> graph \<Rightarrow> graph" where
  "add_edge u v w g =
     (let g' = add_node v (add_node u g)
      in g'\<lparr>edges := AList.update (u, v) w (edges g')\<rparr>)"

text \<open>
  \<^verbatim>\<open>G.in_degree()\<close>, \<^verbatim>\<open>G.out_degree()\<close> and \<^verbatim>\<open>G.degree()\<close>: one \<open>(node, count)\<close> pair per
  node, in node order. The source passes no \<^verbatim>\<open>weight\<close> argument, so an edge counts once
  whatever its weight. The degree of a node counts an edge once for each of its ends
  that is the node, so a self-loop counts twice.
\<close>

definition in_degree :: "graph \<Rightarrow> (string \<times> int) list" where
  "in_degree g =
     map (\<lambda>n. (n, int (length (filter (\<lambda>e. snd (fst e) = n) (edges g))))) (nodes g)"

definition out_degree :: "graph \<Rightarrow> (string \<times> int) list" where
  "out_degree g =
     map (\<lambda>n. (n, int (length (filter (\<lambda>e. fst (fst e) = n) (edges g))))) (nodes g)"

definition degree :: "graph \<Rightarrow> (string \<times> int) list" where
  "degree g =
     map (\<lambda>n. (n, int (length (filter (\<lambda>e. fst (fst e) = n) (edges g)))
                 + int (length (filter (\<lambda>e. snd (fst e) = n) (edges g))))) (nodes g)"

section \<open>Counting dictionaries\<close>

text \<open>
  A \<^verbatim>\<open>defaultdict(int)\<close> as an association list in insertion order.
  \<open>count_of d k\<close> reads a counter, 0 for a key that is not present, and \<open>incr k d\<close> is
  the statement \<^verbatim>\<open>d[k] += 1\<close>: a key not yet present starts from 0 and is appended.
\<close>

definition count_of :: "('k \<times> nat) list \<Rightarrow> 'k \<Rightarrow> nat" where
  "count_of d k = (case map_of d k of None \<Rightarrow> 0 | Some c \<Rightarrow> c)"

definition incr :: "'k \<Rightarrow> ('k \<times> nat) list \<Rightarrow> ('k \<times> nat) list" where
  "incr k d = AList.update k (count_of d k + 1) d"

text \<open>
  The weight stored for the edge from \<open>u\<close> to \<open>v\<close>, and 0 when the graph has no such
  edge.
\<close>

definition weight :: "graph \<Rightarrow> string \<Rightarrow> string \<Rightarrow> nat" where
  "weight g u v = count_of (edges g) (u, v)"

section \<open>Graph construction\<close>

subsection \<open>Hashtag co-occurrence graph (lines 32-56)\<close>

text \<open>\<^verbatim>\<open>tuple(sorted([x, y]))\<close>: the sort is stable, so the two swap only when \<open>y < x\<close>.\<close>

definition sorted_pair :: "string \<Rightarrow> string \<Rightarrow> string \<times> string" where
  "sorted_pair x y = (if y < x then (y, x) else (x, y))"

text \<open>
  The two nested index loops of lines 45-48 over one tweet's hashtag list, guarded by
  the length test of line 43.
\<close>

definition pairs_of_tweet ::
  "string list \<Rightarrow> ((string \<times> string) \<times> nat) list \<Rightarrow> ((string \<times> string) \<times> nat) list" where
  "pairs_of_tweet hs hashtag_pairs =
     (if length hs \<ge> 2 then
        fold (\<lambda>i d. fold (\<lambda>j d'. incr (sorted_pair (hs ! i) (hs ! j)) d')
                         [i + 1 ..< length hs] d)
             [0 ..< length hs] hashtag_pairs
      else hashtag_pairs)"

definition build_hashtag_graph :: "tweet list \<Rightarrow> graph" where
  "build_hashtag_graph collection =
     (let tweets = filter (\<lambda>t. hashtags t \<noteq> []) collection;
          hashtag_pairs = fold (\<lambda>t d. pairs_of_tweet (hashtags t) d) tweets []
      in fold (\<lambda>((hashtag1, hashtag2), w) g.
                 add_edge hashtag2 hashtag1 w (add_edge hashtag1 hashtag2 w g))
           hashtag_pairs DiGraph)"

subsection \<open>Mention graph (lines 58-82)\<close>

text \<open>\<^verbatim>\<open>mention.replace('@', '')\<close>: every occurrence of the character is removed.\<close>

definition replace_at :: "string \<Rightarrow> string" where
  "replace_at mention = filter (\<lambda>c. c \<noteq> CHR ''@'') mention"

definition build_mention_graph :: "tweet list \<Rightarrow> graph" where
  "build_mention_graph collection =
     (let tweets = filter (\<lambda>t. mentions t \<noteq> []) collection;
          mention_edges =
            fold (\<lambda>t d. fold (\<lambda>mention d'. incr (author_id t, replace_at mention) d')
                              (mentions t) d)
                 tweets []
      in fold (\<lambda>((source, target), w) g. add_edge source target w g)
           mention_edges DiGraph)"

section \<open>The networkx functions the analysis calls\<close>

text \<open>
  Scores are rational numbers: every Python \<^verbatim>\<open>int\<close> and every finite \<^verbatim>\<open>float\<close> is one,
  and they are ordered as Python compares them.

  The source calls into networkx for connectivity, clustering and three centralities;
  that library is not part of the repository. Its functions are a parameter of the
  model: a record with one entry per call the source makes. An entry that can raise
  returns a sum. \<^verbatim>\<open>nx.eigenvector_centrality(G, max_iter)\<close> is documented to raise
  \<^verbatim>\<open>PowerIterationFailedConvergence\<close> when the iteration has not met the tolerance after
  \<open>max_iter\<close> rounds; the floating-point iteration itself is not modelled.
\<close>

datatype nx_error = PowerIterationFailedConvergence

record networkx =
  is_weakly_connected :: "graph \<Rightarrow> bool"
  is_connected_to_undirected :: "graph \<Rightarrow> bool"
  average_clustering_to_undirected :: "graph \<Rightarrow> rat"
  betweenness_centrality :: "graph \<Rightarrow> (string \<times> rat) list"
  closeness_centrality :: "graph \<Rightarrow> (string \<times> rat) list"
  eigenvector_centrality :: "graph \<Rightarrow> nat \<Rightarrow> nx_error + (string \<times> rat) list"

text \<open>
  Modelled from the spec: \<^verbatim>\<open>nx.density\<close> is a networkx function and is not under src/.
  Section 4.3 of the specification: a directed graph has density
  \<open>edges / (n (n - 1))\<close>, an undirected graph \<open>edges / (n (n - 1) / 2)\<close>, and the density
  of a graph with fewer than 2 nodes is 0.
\<close>

definition density :: "graph \<Rightarrow> rat" where
  "density g =
     (let n = number_of_nodes g; m = number_of_edges g
      in if n < 2 then 0
         else if is_directed g then of_nat m / of_nat (n * (n - 1))
         else of_nat m / (of_nat (n * (n - 1)) / 2))"

section \<open>Graph metrics (lines 109-144)\<close>

datatype metric_value = IntVal int | FloatVal rat | BoolVal bool

text \<open>
  \<^verbatim>\<open>calculate_graph_metrics\<close> returns a dictionary, here the list of its items in
  insertion order; the empty list is the empty dictionary of line 113. The argument
  \<^verbatim>\<open>graph_name\<close> only feeds the printed report and is left out. The averages are
  Python's true division of two integers, kept here as the exact quotient; the
  divisor is the number of nodes, which the guard of line 111 makes positive, and
  \<^verbatim>\<open>max\<close> is taken of a list that the same guard makes non-empty.
\<close>

definition calculate_graph_metrics :: "networkx \<Rightarrow> graph \<Rightarrow> (string \<times> metric_value) list" where
  "calculate_graph_metrics nx graph =
     (if number_of_nodes graph = 0 then []
      else
        let metrics =
              [(''nodes'', IntVal (int (number_of_nodes graph))),
               (''edges'', IntVal (int (number_of_edges graph))),
               (''density'', FloatVal (density graph)),
               (''is_connected'',
                  BoolVal (if \<not> is_directed graph then is_connected_to_undirected nx graph
                           else is_weakly_connected nx graph)),
               (''average_clustering'', FloatVal (average_clustering_to_undirected nx graph))]
        in if is_directed graph then
             let in_degrees = map snd (in_degree graph);
                 out_degrees = map snd (out_degree graph)
             in metrics @
                [(''avg_in_degree'',
                    FloatVal (of_int (sum_list in_degrees) / of_nat (length in_degrees))),
                 (''avg_out_degree'',
                    FloatVal (of_int (sum_list out_degrees) / of_nat (length out_degrees))),
                 (''max_in_degree'', IntVal (Max (set in_degrees))),
                 (''max_out_degree'', IntVal (Max (set out_degrees)))]
           else
             let degrees = map snd (degree graph)
             in metrics @
                [(''avg_degree'', FloatVal (of_int (sum_list degrees) / of_nat (length degrees))),
                 (''max_degree'', IntVal (Max (set degrees)))])"

section \<open>Top-N ranking (lines 146-167)\<close>

text \<open>
  \<^verbatim>\<open>sorted(node_scores, key=lambda x: x[1], reverse=True)\<close>. Python sorts stably, and
  with \<^verbatim>\<open>reverse=True\<close> it reverses the list, sorts it stably in ascending order and
  reverses the result, so that entries with equal scores keep their original order.
\<close>

definition sorted_nodes :: "(string \<times> rat) list \<Rightarrow> (string \<times> rat) list" where
  "sorted_nodes node_scores = rev (sort_key snd (rev node_scores))"

text \<open>
  The slice \<^verbatim>\<open>xs[:n]\<close>: a negative bound counts from the end of the list, and a bound
  outside the list is clipped.
\<close>

definition slice_to :: "'a list \<Rightarrow> int \<Rightarrow> 'a list" where
  "slice_to xs n = (if n < 0 then take (nat (int (length xs) + n)) xs else take (nat n) xs)"

text \<open>Lines 165-167, the common end of the four metric branches.\<close>

definition rank_nodes :: "(string \<times> rat) list \<Rightarrow> int \<Rightarrow> (string \<times> rat) list" where
  "rank_nodes node_scores top_n = slice_to (sorted_nodes node_scores) top_n"

definition get_top_nodes ::
  "networkx \<Rightarrow> graph \<Rightarrow> string \<Rightarrow> int \<Rightarrow> nx_error + (string \<times> rat) list" where
  "get_top_nodes nx graph metric top_n =
     (if number_of_nodes graph = 0 then Inr []
      else if metric = ''degree'' then
        (if is_directed graph
         then Inr (rank_nodes (map (\<lambda>(n, d). (n, of_int d)) (in_degree graph)) top_n)
         else Inr (rank_nodes (map (\<lambda>(n, d). (n, of_int d)) (degree graph)) top_n))
      else if metric = ''betweenness'' then
        Inr (rank_nodes (betweenness_centrality nx graph) top_n)
      else if metric = ''closeness'' then
        Inr (rank_nodes (closeness_centrality nx graph) top_n)
      else if metric = ''eigenvector'' then
        (case eigenvector_centrality nx graph 1000 of
           Inl e \<Rightarrow> Inl e
         | Inr node_scores \<Rightarrow> Inr (rank_nodes node_scores top_n))
      else Inr [])"

section \<open>Auxiliary notions for the statements\<close>

text \<open>
  The keys that \<^verbatim>\<open>build_mention_graph\<close> increments, in the order of the two loops of
  lines 67-75: one \<open>(author, cleaned mention)\<close> pair per mention token.
\<close>

definition mention_keys :: "tweet list \<Rightarrow> (string \<times> string) list" where
  "mention_keys collection =
     concat (map (\<lambda>t. map (\<lambda>mention. (author_id t, replace_at mention)) (mentions t)) collection)"

text \<open>A small batch of tweets with mentions, one of them a self-mention.\<close>

definition mention_batch :: "tweet list" where
  "mention_batch =
     [\<lparr>author_id = ''u1'', hashtags = [], mentions = [''@u2'', ''@u1'']\<rparr>,
      \<lparr>author_id = ''u1'', hashtags = [], mentions = [''@u2'']\<rparr>,
      \<lparr>author_id = ''u2'', hashtags = [], mentions = [''@u1'']\<rparr>]"

text \<open>
  The keys that the loops of lines 45-48 increment for one hashtag list, in loop order:
  each element paired with every later one. Over a batch, \<open>hashtag_keys\<close> lists the keys
  that lines 41-48 increment.
\<close>

fun pair_keys :: "string list \<Rightarrow> (string \<times> string) list" where
  "pair_keys [] = []"
| "pair_keys (h # hs) = map (sorted_pair h) hs @ pair_keys hs"

definition hashtag_keys :: "tweet list \<Rightarrow> (string \<times> string) list" where
  "hashtag_keys collection = concat (map (\<lambda>t. pair_keys (hashtags t)) collection)"

text \<open>
  The batch of section 8 of the specification, and a batch whose only tweet repeats a
  hashtag, as \<^verbatim>\<open>extract_hashtags\<close> (data_collector.py, line 52) yields for a text that
  does.
\<close>

definition hashtag_batch :: "tweet list" where
  "hashtag_batch =
     [\<lparr>author_id = ''u1'', hashtags = [''#a'', ''#b'', ''#c''], mentions = []\<rparr>,
      \<lparr>author_id = ''u2'', hashtags = [''#a'', ''#b''], mentions = []\<rparr>]"

definition repeated_batch :: "tweet list" where
  "repeated_batch = [\<lparr>author_id = ''u1'', hashtags = [''#a'', ''#a'', ''#b''], mentions = []\<rparr>]"

text \<open>
  A stand-in for the library, for evaluating runs that decide before any library call
  is made (the degree metric, an unknown metric, the empty graph) or that read a
  dictionary entry no library call computes. It reports every graph connected and
  gives every node the score 0.
\<close>

definition nx_stub :: networkx where
  "nx_stub =
     \<lparr>is_weakly_connected = (\<lambda>g. True),
      is_connected_to_undirected = (\<lambda>g. True),
      average_clustering_to_undirected = (\<lambda>g. 0),
      betweenness_centrality = (\<lambda>g. map (\<lambda>n. (n, 0)) (nodes g)),
      closeness_centrality = (\<lambda>g. map (\<lambda>n. (n, 0)) (nodes g)),
      eigenvector_centrality = (\<lambda>g max_iter. Inr (map (\<lambda>n. (n, 0)) (nodes g)))\<rparr>"

text \<open>
  The mention batch of section 8 of the specification, and a batch whose graph has a
  single node.
\<close>

definition scenario_batch :: "tweet list" where
  "scenario_batch =
     [\<lparr>author_id = ''u1'', hashtags = [], mentions = [''@u2'']\<rparr>,
      \<lparr>author_id = ''u1'', hashtags = [], mentions = [''@u2'']\<rparr>,
      \<lparr>author_id = ''u2'', hashtags = [], mentions = [''@u1'']\<rparr>]"

definition self_batch :: "tweet list" where
  "self_batch = [\<lparr>author_id = ''u1'', hashtags = [], mentions = [''@u1'']\<rparr>]"

text \<open>
  The library in a run in which \<^verbatim>\<open>nx.eigenvector_centrality\<close> has not met its tolerance
  after \<open>max_iter\<close> rounds and raises, and a batch of mentions that gives a chain of three
  users, each mentioning themselves and the next one.
\<close>

definition nx_unconverged :: networkx where
  "nx_unconverged =
     nx_stub\<lparr>eigenvector_centrality := (\<lambda>g max_iter. Inl PowerIterationFailedConvergence)\<rparr>"

definition chain_batch :: "tweet list" where
  "chain_batch =
     [\<lparr>author_id = ''u1'', hashtags = [], mentions = [''@u1'', ''@u2'']\<rparr>,
      \<lparr>author_id = ''u2'', hashtags = [], mentions = [''@u2'', ''@u3'']\<rparr>,
      \<lparr>author_id = ''u3'', hashtags = [], mentions = [''@u3'']\<rparr>]"

section \<open>Properties of the counting dictionaries and of edge insertion\<close>

lemma count_of_incr: "count_of (incr k d) k' = count_of d k' + (if k' = k then 1 else 0)"
  by (simp add: incr_def count_of_def AList.update_conv')

lemma count_of_fold_incr: "count_of (fold incr ks d) k = count_of d k + count_list ks k"
  by (induction ks arbitrary: d) (auto simp: count_of_incr)

lemma keys_incr: "fst ` set (incr k d) = insert k (fst ` set d)"
  by (simp add: incr_def AList.dom_update)

lemma keys_fold_incr: "fst ` set (fold incr ks d) = set ks \<union> fst ` set d"
  by (induction ks arbitrary: d) (auto simp: keys_incr)

lemma distinct_incr: "distinct (map fst d) \<Longrightarrow> distinct (map fst (incr k d))"
  by (simp add: incr_def AList.distinct_update)

lemma distinct_fold_incr: "distinct (map fst d) \<Longrightarrow> distinct (map fst (fold incr ks d))"
  by (induction ks arbitrary: d) (auto simp: distinct_incr)

lemma fold_fold_incr:
  "fold (\<lambda>t d. fold (\<lambda>x d'. incr (f t x) d') (g t) d) ts d0
     = fold incr (concat (map (\<lambda>t. map (f t) (g t)) ts)) d0"
  by (induction ts arbitrary: d0) (auto simp: fold_map comp_def)

lemma count_list_concat:
  "count_list (concat xss) k = sum_list (map (\<lambda>xs. count_list xs k) xss)"
  by (induction xss) auto

lemma count_list_distinct: "distinct xs \<Longrightarrow> count_list xs x = (if x \<in> set xs then 1 else 0)"
  by (induction xs) auto

lemma edges_add_node [simp]: "edges (add_node n g) = edges g"
  by (simp add: add_node_def)

lemma set_nodes_add_node [simp]: "set (nodes (add_node n g)) = insert n (set (nodes g))"
  by (auto simp: add_node_def)

lemma map_of_edges_add_edge:
  "map_of (edges (add_edge u v w g)) = (map_of (edges g))((u, v) \<mapsto> w)"
  by (simp add: add_edge_def Let_def AList.update_conv')

lemma map_of_edges_fold_add_edge:
  "distinct (map fst items) \<Longrightarrow>
   map_of (edges (fold (\<lambda>((u, v), w) g. add_edge u v w g) items g)) k
     = (case map_of items k of Some w \<Rightarrow> Some w | None \<Rightarrow> map_of (edges g) k)"
proof (induction items arbitrary: g)
  case Nil
  then show ?case by simp
next
  case (Cons it items)
  obtain u v w where it: "it = ((u, v), w)" by (cases it) auto
  from Cons.prems have d: "distinct (map fst items)" and n: "(u, v) \<notin> fst ` set items"
    by (auto simp: it)
  from n have none: "map_of items (u, v) = None"
    by (simp add: map_of_eq_None_iff)
  show ?case
    using Cons.IH [OF d, of "add_edge u v w g"] none
    by (auto simp: it map_of_edges_add_edge split: option.splits)
qed

lemma is_directed_add_edge [simp]: "is_directed (add_edge u v w g) = is_directed g"
  by (simp add: add_edge_def add_node_def Let_def)

lemma mention_keys_filter:
  "mention_keys (filter (\<lambda>t. mentions t \<noteq> []) coll) = mention_keys coll"
  by (induction coll) (auto simp: mention_keys_def)

lemma map_of_edges_build_mention_graph:
  "map_of (edges (build_mention_graph coll)) = map_of (fold incr (mention_keys coll) [])"
proof -
  let ?d = "fold incr (mention_keys coll) []"
  have d: "distinct (map fst ?d)"
    by (rule distinct_fold_incr) simp
  have g: "build_mention_graph coll = fold (\<lambda>((u, v), w) g. add_edge u v w g) ?d DiGraph"
    unfolding build_mention_graph_def Let_def fold_fold_incr
    by (simp add: mention_keys_filter [unfolded mention_keys_def] mention_keys_def)
  show ?thesis
    unfolding g
    by (rule ext) (simp add: map_of_edges_fold_add_edge [OF d] DiGraph_def split: option.splits)
qed

lemma weight_build_mention_graph:
  "weight (build_mention_graph coll) a u = count_list (mention_keys coll) (a, u)"
  by (simp add: weight_def count_of_def map_of_edges_build_mention_graph
      count_of_fold_incr [unfolded count_of_def, of "mention_keys coll" "[]", simplified])

lemma count_list_mention_keys:
  "count_list (mention_keys coll) (a, u)
     = sum_list (map (\<lambda>t. count_list (map replace_at (mentions t)) u)
                     (filter (\<lambda>t. author_id t = a) coll))"
proof (induction coll)
  case Nil
  then show ?case by (simp add: mention_keys_def)
next
  case (Cons t coll)
  have "count_list (map (\<lambda>mention. (author_id t, replace_at mention)) ms) (a, u)
          = (if author_id t = a then count_list (map replace_at ms) u else 0)" for ms
    by (induction ms) auto
  with Cons show ?case by (simp add: mention_keys_def)
qed

lemma sum_list_indicator:
  "sum_list (map (\<lambda>t. if P t then 1 else 0) xs) = length (filter P xs)"
  by (induction xs) auto

section \<open>Claims about the mention graph\<close>

text \<open>
  Claim C3, as amended. The weight of the edge from an author to a target is the number
  of mention tokens, counted with repetition over all of the author's tweets, that give
  the target once their \<open>@\<close> characters are removed. When no tweet mentions a target
  twice, this is the number of the author's tweets that mention the target. An author
  who mentions themselves gets an edge to themselves.
\<close>

theorem build_mention_graph_weight:
  "weight (build_mention_graph coll) a u
     = sum_list (map (\<lambda>t. count_list (map replace_at (mentions t)) u)
                     (filter (\<lambda>t. author_id t = a) coll))
   \<and> ((\<forall>t \<in> set coll. distinct (map replace_at (mentions t))) \<longrightarrow>
        weight (build_mention_graph coll) a u
          = length (filter (\<lambda>t. author_id t = a \<and> u \<in> replace_at ` set (mentions t)) coll))
   \<and> ((\<exists>t \<in> set coll. author_id t = a \<and> a \<in> replace_at ` set (mentions t)) \<longrightarrow>
        weight (build_mention_graph coll) a a \<ge> 1)"
proof (intro conjI impI)
  show w: "weight (build_mention_graph coll) a u
     = sum_list (map (\<lambda>t. count_list (map replace_at (mentions t)) u)
                     (filter (\<lambda>t. author_id t = a) coll))" for u
    by (simp add: weight_build_mention_graph count_list_mention_keys)
  show "weight (build_mention_graph coll) a u
          = length (filter (\<lambda>t. author_id t = a \<and> u \<in> replace_at ` set (mentions t)) coll)"
    if dist: "\<forall>t \<in> set coll. distinct (map replace_at (mentions t))"
  proof -
    have "sum_list (map (\<lambda>t. count_list (map replace_at (mentions t)) u)
                     (filter (\<lambda>t. author_id t = a) coll))
        = sum_list (map (\<lambda>t. if u \<in> replace_at ` set (mentions t) then 1 else 0)
                     (filter (\<lambda>t. author_id t = a) coll))"
      using dist by (intro arg_cong [where f = sum_list] map_cong refl) (simp add: count_list_distinct)
    also have "\<dots> = length (filter (\<lambda>t. u \<in> replace_at ` set (mentions t))
                           (filter (\<lambda>t. author_id t = a) coll))"
      by (rule sum_list_indicator)
    also have "\<dots> = length (filter (\<lambda>t. author_id t = a \<and> u \<in> replace_at ` set (mentions t)) coll)"
      by (simp add: conj_commute)
    finally show ?thesis
      by (simp only: w)
  qed
  show "weight (build_mention_graph coll) a a \<ge> 1"
    if "\<exists>t \<in> set coll. author_id t = a \<and> a \<in> replace_at ` set (mentions t)"
  proof -
    from that obtain t m where "t \<in> set coll" "author_id t = a" "m \<in> set (mentions t)"
      "a = replace_at m" by auto
    then have "(a, a) \<in> set (mention_keys coll)"
      unfolding mention_keys_def by (force simp: image_iff)
    then have "count_list (mention_keys coll) (a, a) \<noteq> 0"
      by (simp add: count_list_0_iff)
    then show ?thesis
      by (simp add: weight_build_mention_graph)
  qed
qed

theorem build_mention_graph_weight_witness:
  "list_all (\<lambda>t. distinct (map replace_at (mentions t))) mention_batch
   \<and> (\<exists>t \<in> set mention_batch. author_id t = ''u1'' \<and> ''u1'' \<in> replace_at ` set (mentions t))
   \<and> weight (build_mention_graph mention_batch) ''u1'' ''u2'' = 2
   \<and> weight (build_mention_graph mention_batch) ''u1'' ''u1'' \<ge> 1"
proof -
  have h1: "\<forall>t \<in> set mention_batch. distinct (map replace_at (mentions t))"
    by (simp add: mention_batch_def replace_at_def)
  have h2: "\<exists>t \<in> set mention_batch. author_id t = ''u1'' \<and> ''u1'' \<in> replace_at ` set (mentions t)"
    by (simp add: mention_batch_def replace_at_def)
  note inst = build_mention_graph_weight [of mention_batch "''u1''" "''u2''"]
  have c2: "weight (build_mention_graph mention_batch) ''u1'' ''u2''
          = length (filter (\<lambda>t. author_id t = ''u1'' \<and> ''u2'' \<in> replace_at ` set (mentions t)) mention_batch)"
    using inst h1 by blast
  have c3: "weight (build_mention_graph mention_batch) ''u1'' ''u1'' \<ge> 1"
    using inst h2 by blast
  have "length (filter (\<lambda>t. author_id t = ''u1'' \<and> ''u2'' \<in> replace_at ` set (mentions t)) mention_batch) = 2"
    by (simp add: mention_batch_def replace_at_def)
  with c2 have "weight (build_mention_graph mention_batch) ''u1'' ''u2'' = 2" by simp
  with h1 h2 c3 show ?thesis unfolding list_all_iff by blast
qed

text \<open>
  Claim C3 as stated fails: one tweet that mentions the same target twice gives the
  edge weight 2, while one document of the author mentions the target.
\<close>

theorem build_mention_graph_weight_counterexample:
  "weight (build_mention_graph [\<lparr>author_id = ''u1'', hashtags = [], mentions = [''@u2'', ''@u2'']\<rparr>])
       ''u1'' ''u2'' = 2
   \<and> length (filter (\<lambda>t. author_id t = ''u1'' \<and> ''u2'' \<in> replace_at ` set (mentions t))
        [\<lparr>author_id = ''u1'', hashtags = [], mentions = [''@u2'', ''@u2'']\<rparr>]) = 1"
  by (simp add: build_mention_graph_def replace_at_def incr_def count_of_def weight_def
      add_edge_def add_node_def DiGraph_def)



section \<open>Properties of the hashtag pairing\<close>

lemma map_nth_upt_drop: "map ((!) xs) [i ..< length xs] = drop i xs"
  by (rule nth_equalityI) simp_all

lemma inner_loop:
  "fold (\<lambda>j. incr (sorted_pair x (hs ! j))) [i ..< length hs]
     = fold incr (map (sorted_pair x) (drop i hs))"
proof -
  have "fold (\<lambda>j. incr (sorted_pair x (hs ! j))) [i ..< length hs]
      = fold incr (map (\<lambda>j. sorted_pair x (hs ! j)) [i ..< length hs])"
    by (simp add: fold_map comp_def)
  also have "map (\<lambda>j. sorted_pair x (hs ! j)) [i ..< length hs]
      = map (sorted_pair x) (map ((!) hs) [i ..< length hs])"
    by simp
  finally show ?thesis
    by (simp only: map_nth_upt_drop)
qed

lemma outer_loop:
  "fold (\<lambda>i d. fold incr (map (sorted_pair (hs ! i)) (drop (i + 1) hs)) d) [k ..< length hs] d
     = fold incr (pair_keys (drop k hs)) d"
proof (induction "length hs - k" arbitrary: k d)
  case 0
  then show ?case by simp
next
  case (Suc n)
  then have k: "k < length hs" and n: "n = length hs - Suc k" by auto
  have "pair_keys (drop k hs) = map (sorted_pair (hs ! k)) (drop (Suc k) hs) @ pair_keys (drop (Suc k) hs)"
    using k by (simp flip: Cons_nth_drop_Suc)
  then show ?case
    using Suc.hyps(1) [OF n] k by (simp add: upt_conv_Cons)
qed

lemma pairs_of_tweet_eq: "pairs_of_tweet hs d = fold incr (pair_keys hs) d"
proof (cases "length hs \<ge> 2")
  case True
  then show ?thesis
    using outer_loop [of hs 0 d] by (simp add: pairs_of_tweet_def inner_loop)
next
  case False
  then have "hs = [] \<or> (\<exists>h. hs = [h])"
    by (cases hs) (auto simp: Suc_le_eq numeral_2_eq_2)
  then show ?thesis
    by (auto simp: pairs_of_tweet_def)
qed

lemma sorted_pair_eq_iff:
  "a \<noteq> b \<Longrightarrow> sorted_pair h z = sorted_pair a b \<longleftrightarrow> (h = a \<and> z = b) \<or> (h = b \<and> z = a)"
  by (auto simp: sorted_pair_def)

lemma sorted_pair_same_iff: "sorted_pair h z = (a, a) \<longleftrightarrow> h = a \<and> z = a"
  by (auto simp: sorted_pair_def)

lemma sorted_pair_commute: "sorted_pair a b = sorted_pair b a"
  by (auto simp: sorted_pair_def)

lemma sorted_pair_canonical: "sorted_pair a b = (x, y) \<Longrightarrow> x \<le> y"
  by (auto simp: sorted_pair_def split: if_splits)

lemma count_list_map_sorted_pair:
  "a \<noteq> b \<Longrightarrow> count_list (map (sorted_pair h) hs) (sorted_pair a b)
     = (if h = a then count_list hs b else if h = b then count_list hs a else 0)"
  by (induction hs) (auto simp: sorted_pair_eq_iff)

lemma count_list_map_sorted_pair_same:
  "count_list (map (sorted_pair h) hs) (a, a) = (if h = a then count_list hs a else 0)"
  by (induction hs) (auto simp: sorted_pair_same_iff)

lemma count_list_pair_keys:
  "a \<noteq> b \<Longrightarrow> count_list (pair_keys hs) (sorted_pair a b) = count_list hs a * count_list hs b"
  by (induction hs) (auto simp: count_list_map_sorted_pair)

lemma count_list_pair_keys_same:
  "count_list (pair_keys hs) (a, a) = count_list hs a choose 2"
  by (induction hs) (auto simp: count_list_map_sorted_pair_same numeral_2_eq_2)

lemma pair_keys_canonical: "(x, y) \<in> set (pair_keys hs) \<Longrightarrow> x \<le> y"
  by (induction hs) (auto dest: sorted_pair_canonical [OF sym])

lemma fold_fold_incr_keys:
  "fold (\<lambda>t d. fold incr (f t) d) ts d0 = fold incr (concat (map f ts)) d0"
  by (induction ts arbitrary: d0) auto

lemma hashtag_keys_filter:
  "hashtag_keys (filter (\<lambda>t. hashtags t \<noteq> []) coll) = hashtag_keys coll"
  by (induction coll) (auto simp: hashtag_keys_def)

lemma hashtag_keys_canonical: "(x, y) \<in> set (hashtag_keys coll) \<Longrightarrow> x \<le> y"
  by (auto simp: hashtag_keys_def dest: pair_keys_canonical)

lemma sorted_pair_eq_canonical:
  "u \<le> v \<Longrightarrow> sorted_pair a b = (u, v) \<longleftrightarrow> (a, b) = (u, v) \<or> (a, b) = (v, u)"
proof (cases "b < a")
  case True
  assume "u \<le> v"
  with True show ?thesis
    unfolding sorted_pair_def by (metis Pair_inject leD order.strict_iff_order)
next
  case False
  assume "u \<le> v"
  with False show ?thesis
    unfolding sorted_pair_def by (metis Pair_inject leI order.antisym)
qed

lemma map_of_edges_add_both:
  assumes "u \<le> v"
  shows "map_of (edges (add_edge v u w (add_edge u v w g))) k
      = (if sorted_pair (fst k) (snd k) = (u, v) then Some w else map_of (edges g) k)"
proof -
  have m: "map_of (edges (add_edge v u w (add_edge u v w g))) k
      = (if k = (v, u) then Some w else if k = (u, v) then Some w else map_of (edges g) k)"
    by (simp only: map_of_edges_add_edge fun_upd_apply)
  have key: "sorted_pair (fst k) (snd k) = (u, v) \<longleftrightarrow> k = (u, v) \<or> k = (v, u)"
    using sorted_pair_eq_canonical [OF assms, of "fst k" "snd k"] by (simp only: prod.collapse)
  show ?thesis
    unfolding m key
    by (cases "k = (v, u)"; cases "k = (u, v)"; simp only: if_True if_False simp_thms)
qed

lemma map_of_edges_fold_add_both:
  "distinct (map fst items) \<Longrightarrow> (\<And>x y. (x, y) \<in> fst ` set items \<Longrightarrow> x \<le> y) \<Longrightarrow>
   map_of (edges (fold (\<lambda>((h1, h2), w) g. add_edge h2 h1 w (add_edge h1 h2 w g)) items g)) (a, b)
     = (case map_of items (sorted_pair a b) of
          Some w \<Rightarrow> Some w | None \<Rightarrow> map_of (edges g) (a, b))"
proof (induction items arbitrary: g)
  case Nil
  then show ?case by simp
next
  case (Cons it items)
  obtain u v w where it: "it = ((u, v), w)" by (cases it) auto
  from Cons.prems(1) have d: "distinct (map fst items)" and n: "(u, v) \<notin> fst ` set items"
    by (simp_all add: it)
  have c: "x \<le> y" if "(x, y) \<in> fst ` set items" for x y
    using that by (intro Cons.prems(2)) simp
  have uv: "u \<le> v"
    by (intro Cons.prems(2)) (simp add: it)
  from n have none: "map_of items (u, v) = None"
    by (simp add: map_of_eq_None_iff)
  let ?g = "add_edge v u w (add_edge u v w g)"
  have step: "map_of (edges ?g) (a, b)
      = (if sorted_pair a b = (u, v) then Some w else map_of (edges g) (a, b))"
    using map_of_edges_add_both [OF uv, of w g "(a, b)"] by (simp only: fst_conv snd_conv)
  have "map_of (edges (fold (\<lambda>((h1, h2), w) g. add_edge h2 h1 w (add_edge h1 h2 w g)) (it # items) g)) (a, b)
      = (case map_of items (sorted_pair a b) of Some w \<Rightarrow> Some w | None \<Rightarrow> map_of (edges ?g) (a, b))"
    using Cons.IH [OF d c, of ?g] by (simp add: it)
  also have "\<dots> = (case map_of (it # items) (sorted_pair a b) of
          Some w \<Rightarrow> Some w | None \<Rightarrow> map_of (edges g) (a, b))"
  proof (cases "sorted_pair a b = (u, v)")
    case True
    then show ?thesis
      using none by (simp add: it step)
  next
    case False
    then show ?thesis
      by (simp add: it step split: option.splits)
  qed
  finally show ?case .
qed

lemma build_hashtag_graph_eq:
  "build_hashtag_graph coll
     = fold (\<lambda>((h1, h2), w) g. add_edge h2 h1 w (add_edge h1 h2 w g))
         (fold incr (hashtag_keys coll) []) DiGraph"
proof -
  have p: "pairs_of_tweet hs = fold incr (pair_keys hs)" for hs
    by (rule ext) (rule pairs_of_tweet_eq)
  have "fold (\<lambda>t d. pairs_of_tweet (hashtags t) d) (filter (\<lambda>t. hashtags t \<noteq> []) coll) []
      = fold incr (hashtag_keys (filter (\<lambda>t. hashtags t \<noteq> []) coll)) []"
    unfolding p hashtag_keys_def by (rule fold_fold_incr_keys)
  then show ?thesis
    unfolding build_hashtag_graph_def Let_def by (simp only: hashtag_keys_filter)
qed

lemma map_of_edges_build_hashtag_graph:
  "map_of (edges (build_hashtag_graph coll)) (a, b)
     = map_of (fold incr (hashtag_keys coll) []) (sorted_pair a b)"
proof -
  let ?d = "fold incr (hashtag_keys coll) []"
  have d: "distinct (map fst ?d)"
    by (rule distinct_fold_incr) simp
  have c: "x \<le> y" if "(x, y) \<in> fst ` set ?d" for x y
    using that by (simp add: keys_fold_incr hashtag_keys_canonical)
  have "map_of (edges (build_hashtag_graph coll)) (a, b)
      = (case map_of ?d (sorted_pair a b) of
           Some w \<Rightarrow> Some w | None \<Rightarrow> map_of (edges DiGraph) (a, b))"
    unfolding build_hashtag_graph_eq by (rule map_of_edges_fold_add_both [OF d c])
  also have "\<dots> = map_of ?d (sorted_pair a b)"
    by (cases "map_of ?d (sorted_pair a b)") (simp_all add: DiGraph_def)
  finally show ?thesis .
qed

lemma weight_build_hashtag_graph:
  "weight (build_hashtag_graph coll) a b = count_list (hashtag_keys coll) (sorted_pair a b)"
  by (simp add: weight_def count_of_def map_of_edges_build_hashtag_graph
      count_of_fold_incr [unfolded count_of_def, of "hashtag_keys coll" "[]", simplified])

lemma is_directed_fold_add_both:
  "is_directed (fold (\<lambda>((h1, h2), w) g. add_edge h2 h1 w (add_edge h1 h2 w g)) items g)
     = is_directed g"
proof (induction items arbitrary: g)
  case Nil
  then show ?case by simp
next
  case (Cons it items)
  obtain u v w where it: "it = ((u, v), w)" by (cases it) auto
  show ?case
    by (simp add: it Cons.IH)
qed

lemma hashtag_batch_graph:
  "build_hashtag_graph hashtag_batch =
     \<lparr>is_directed = True, nodes = [''#a'', ''#b'', ''#c''],
      edges = [((''#a'', ''#b''), 2), ((''#b'', ''#a''), 2), ((''#a'', ''#c''), 1),
               ((''#c'', ''#a''), 1), ((''#b'', ''#c''), 1), ((''#c'', ''#b''), 1)]\<rparr>"
  by code_simp

lemma repeated_batch_graph:
  "build_hashtag_graph repeated_batch =
     \<lparr>is_directed = True, nodes = [''#a'', ''#b''],
      edges = [((''#a'', ''#a''), 1), ((''#a'', ''#b''), 2), ((''#b'', ''#a''), 2)]\<rparr>"
  by code_simp

section \<open>Claims about the hashtag co-occurrence graph\<close>

text \<open>
  Claim C1, as amended. The hashtag graph is a directed graph in which every counted
  pair is stored in both directions with the same weight: the entry for \<open>(a, b)\<close> and
  the entry for \<open>(b, a)\<close> are always equal (both absent, or both present with one
  weight), as line 53 of the source intends ("Undirected for co-occurrence").
\<close>

theorem build_hashtag_graph_symmetric:
  "is_directed (build_hashtag_graph coll)
   \<and> map_of (edges (build_hashtag_graph coll)) (a, b)
       = map_of (edges (build_hashtag_graph coll)) (b, a)"
proof
  show "is_directed (build_hashtag_graph coll)"
    by (simp add: build_hashtag_graph_eq is_directed_fold_add_both DiGraph_def)
  show "map_of (edges (build_hashtag_graph coll)) (a, b)
       = map_of (edges (build_hashtag_graph coll)) (b, a)"
    by (simp only: map_of_edges_build_hashtag_graph sorted_pair_commute [of a b])
qed

text \<open>
  Claim C1 as stated fails: for the batch of section 8 the graph holds both
  \<open>(#a, #b)\<close> and \<open>(#b, #a)\<close> as counted edges, for two distinct hashtags.
\<close>

theorem build_hashtag_graph_symmetric_counterexample:
  "map_of (edges (build_hashtag_graph hashtag_batch)) (''#a'', ''#b'') = Some 2
   \<and> map_of (edges (build_hashtag_graph hashtag_batch)) (''#b'', ''#a'') = Some 2
   \<and> ''#a'' \<noteq> ''#b''"
  by (simp add: hashtag_batch_graph)

text \<open>
  Claim C2, as amended. The builder does not deduplicate a tweet's hashtag list: it
  counts every pair of positions \<open>i < j\<close>. So for distinct hashtags \<open>a\<close> and \<open>b\<close> the
  weight of the pair is the sum, over the tweets, of the number of occurrences of \<open>a\<close>
  times the number of occurrences of \<open>b\<close>, and a hashtag occurring \<open>k\<close> times in a
  tweet is paired with itself \<open>k\<close> choose 2 times. For a batch in which no tweet repeats a
  hashtag, no hashtag is paired with itself and the weight of the pair is the number of
  tweets in which both hashtags appear.
\<close>

theorem build_hashtag_graph_weight:
  "(a \<noteq> b \<longrightarrow>
      weight (build_hashtag_graph coll) a b
        = sum_list (map (\<lambda>t. count_list (hashtags t) a * count_list (hashtags t) b) coll))
   \<and> weight (build_hashtag_graph coll) a a
        = sum_list (map (\<lambda>t. count_list (hashtags t) a choose 2) coll)
   \<and> ((\<forall>t \<in> set coll. distinct (hashtags t)) \<longrightarrow>
        weight (build_hashtag_graph coll) a a = 0
        \<and> (a \<noteq> b \<longrightarrow>
             weight (build_hashtag_graph coll) a b
               = length (filter (\<lambda>t. a \<in> set (hashtags t) \<and> b \<in> set (hashtags t)) coll)))"
proof -
  have ne: "weight (build_hashtag_graph coll) a b
        = sum_list (map (\<lambda>t. count_list (hashtags t) a * count_list (hashtags t) b) coll)"
    if "a \<noteq> b"
    using that
    by (simp add: weight_build_hashtag_graph hashtag_keys_def count_list_concat comp_def
        count_list_pair_keys)
  have "sorted_pair a a = (a, a)"
    by (simp add: sorted_pair_def)
  then have same: "weight (build_hashtag_graph coll) a a
        = sum_list (map (\<lambda>t. count_list (hashtags t) a choose 2) coll)"
    by (simp add: weight_build_hashtag_graph hashtag_keys_def count_list_concat comp_def
        count_list_pair_keys_same)
  have d0: "weight (build_hashtag_graph coll) a a = 0"
    if "\<forall>t \<in> set coll. distinct (hashtags t)"
  proof -
    have "map (\<lambda>t. count_list (hashtags t) a choose 2) coll = map (\<lambda>t. 0) coll"
      using that by (intro map_cong refl) (simp add: count_list_distinct)
    then show ?thesis
      by (simp add: same)
  qed
  have d1: "weight (build_hashtag_graph coll) a b
               = length (filter (\<lambda>t. a \<in> set (hashtags t) \<and> b \<in> set (hashtags t)) coll)"
    if "\<forall>t \<in> set coll. distinct (hashtags t)" and "a \<noteq> b"
  proof -
    have "sum_list (map (\<lambda>t. count_list (hashtags t) a * count_list (hashtags t) b) coll)
        = sum_list (map (\<lambda>t. if a \<in> set (hashtags t) \<and> b \<in> set (hashtags t) then 1 else 0) coll)"
      using that(1) by (intro arg_cong [where f = sum_list] map_cong refl) (simp add: count_list_distinct)
    also have "\<dots> = length (filter (\<lambda>t. a \<in> set (hashtags t) \<and> b \<in> set (hashtags t)) coll)"
      by (rule sum_list_indicator)
    finally show ?thesis
      by (simp only: ne [OF that(2)])
  qed
  from ne same d0 d1 show ?thesis
    by (intro conjI impI) simp_all
qed

theorem build_hashtag_graph_weight_witness:
  "list_all (\<lambda>t. distinct (hashtags t)) hashtag_batch
   \<and> weight (build_hashtag_graph hashtag_batch) ''#a'' ''#b'' = 2
   \<and> weight (build_hashtag_graph hashtag_batch) ''#a'' ''#a'' = 0"
proof -
  have h: "\<forall>t \<in> set hashtag_batch. distinct (hashtags t)"
    by (simp add: hashtag_batch_def)
  have ne: "''#a'' \<noteq> ''#b''"
    by simp
  note inst = build_hashtag_graph_weight [of "''#a''" "''#b''" hashtag_batch]
  have c1: "weight (build_hashtag_graph hashtag_batch) ''#a'' ''#a'' = 0"
    using inst h by blast
  have c2: "weight (build_hashtag_graph hashtag_batch) ''#a'' ''#b''
      = length (filter (\<lambda>t. ''#a'' \<in> set (hashtags t) \<and> ''#b'' \<in> set (hashtags t)) hashtag_batch)"
    using inst h ne by blast
  have "length (filter (\<lambda>t. ''#a'' \<in> set (hashtags t) \<and> ''#b'' \<in> set (hashtags t)) hashtag_batch) = 2"
    by (simp add: hashtag_batch_def)
  with c2 have "weight (build_hashtag_graph hashtag_batch) ''#a'' ''#b'' = 2" by simp
  with h c1 show ?thesis unfolding list_all_iff by blast
qed

text \<open>
  Claim C2 as stated fails: a tweet with the hashtags \<open>#a, #a, #b\<close> gives the pair
  \<open>{#a, #b}\<close> the weight 2 although one document holds both, and pairs \<open>#a\<close> with
  itself.
\<close>

theorem build_hashtag_graph_weight_counterexample:
  "weight (build_hashtag_graph repeated_batch) ''#a'' ''#b'' = 2
   \<and> length (filter (\<lambda>t. ''#a'' \<in> set (hashtags t) \<and> ''#b'' \<in> set (hashtags t))
        repeated_batch) = 1
   \<and> weight (build_hashtag_graph repeated_batch) ''#a'' ''#a'' = 1"
  by (simp add: repeated_batch_graph weight_def count_of_def) (simp add: repeated_batch_def)

text \<open>
  Claim C7, as amended. For the two tweets with the hashtag lists \<open>[#a, #b, #c]\<close> and
  \<open>[#a, #b]\<close> the graph has exactly the nodes \<open>#a\<close>, \<open>#b\<close> and \<open>#c\<close>, the hashtag strings
  with their \<open>#\<close>, and exactly six directed edges: \<open>(#a, #b)\<close> and \<open>(#b, #a)\<close> with
  weight 2, and \<open>(#a, #c)\<close>, \<open>(#c, #a)\<close>, \<open>(#b, #c)\<close> and \<open>(#c, #b)\<close> with weight 1.
\<close>

theorem build_hashtag_graph_scenario:
  "set (nodes (build_hashtag_graph hashtag_batch)) = {''#a'', ''#b'', ''#c''}
   \<and> weight (build_hashtag_graph hashtag_batch) ''#a'' ''#b'' = 2
   \<and> weight (build_hashtag_graph hashtag_batch) ''#b'' ''#a'' = 2
   \<and> weight (build_hashtag_graph hashtag_batch) ''#a'' ''#c'' = 1
   \<and> weight (build_hashtag_graph hashtag_batch) ''#c'' ''#a'' = 1
   \<and> weight (build_hashtag_graph hashtag_batch) ''#b'' ''#c'' = 1
   \<and> weight (build_hashtag_graph hashtag_batch) ''#c'' ''#b'' = 1
   \<and> fst ` set (edges (build_hashtag_graph hashtag_batch))
       = {(''#a'', ''#b''), (''#b'', ''#a''), (''#a'', ''#c''),
          (''#c'', ''#a''), (''#b'', ''#c''), (''#c'', ''#b'')}
   \<and> number_of_edges (build_hashtag_graph hashtag_batch) = 6"
  by (simp add: hashtag_batch_graph weight_def count_of_def number_of_edges_def)

text \<open>
  Claim C7 as stated fails: the strings \<open>a\<close>, \<open>b\<close> and \<open>c\<close> are not nodes of the graph,
  no edge joins \<open>a\<close> and \<open>b\<close>, and the graph has six edges, not three.
\<close>

theorem build_hashtag_graph_scenario_counterexample:
  "''a'' \<notin> set (nodes (build_hashtag_graph hashtag_batch))
   \<and> ''b'' \<notin> set (nodes (build_hashtag_graph hashtag_batch))
   \<and> ''c'' \<notin> set (nodes (build_hashtag_graph hashtag_batch))
   \<and> weight (build_hashtag_graph hashtag_batch) ''a'' ''b'' = 0
   \<and> number_of_edges (build_hashtag_graph hashtag_batch) = 6"
  by (simp add: hashtag_batch_graph weight_def count_of_def number_of_edges_def)

section \<open>Properties of sorting and slicing\<close>

lemma sorted_nodes_descending: "sorted_wrt (\<lambda>x y. snd y \<le> snd x) (sorted_nodes xs)"
proof -
  have "sorted (map snd (sort_key snd (rev xs)))"
    by (rule sorted_sort_key)
  then have "sorted_wrt (\<lambda>x y. snd x \<le> snd y) (sort_key snd (rev xs))"
    by (simp add: sorted_wrt_map)
  then show ?thesis
    by (simp add: sorted_nodes_def sorted_wrt_rev)
qed

lemma mset_sorted_nodes: "mset (sorted_nodes xs) = mset xs"
  by (simp add: sorted_nodes_def)

lemma sorted_nodes_stable:
  "filter (\<lambda>x. snd x = k) (sorted_nodes xs) = filter (\<lambda>x. snd x = k) xs"
  by (simp add: sorted_nodes_def sort_key_stable flip: rev_filter)

lemma length_sorted_nodes: "length (sorted_nodes xs) = length xs"
  by (simp add: sorted_nodes_def)

lemma slice_to_nonneg: "0 \<le> n \<Longrightarrow> slice_to xs n = take (nat n) xs"
  by (simp add: slice_to_def)

lemma slice_to_neg: "n < 0 \<Longrightarrow> slice_to xs n = take (length xs - nat (- n)) xs"
proof -
  assume "n < 0"
  then have "nat (int (length xs) + n) = length xs - nat (- n)"
    by linarith
  with \<open>n < 0\<close> show ?thesis
    by (simp add: slice_to_def)
qed

lemma prefix_take_le: "a \<le> b \<Longrightarrow> prefix (take a xs) (take b xs)"
proof -
  assume "a \<le> b"
  then have "take a xs = take a (take b xs)"
    by (simp add: min_def)
  then show ?thesis
    by (metis take_is_prefix)
qed

lemma slice_to_prefix_iff:
  "prefix (slice_to xs k) (slice_to xs (k + 1)) \<longleftrightarrow> k \<noteq> - 1 \<or> length xs \<le> 1"
proof (cases "k = - 1")
  case True
  have "slice_to xs (- 1) = take (length xs - 1) xs"
    using slice_to_neg [of "- 1" xs] by simp
  moreover have "slice_to xs 0 = []"
    by (simp add: slice_to_def)
  ultimately show ?thesis
    using True by (auto simp: Suc_le_eq not_less)
next
  case False
  then consider "0 \<le> k" | "k < - 1" by linarith
  then have "prefix (slice_to xs k) (slice_to xs (k + 1))"
  proof cases
    case 1
    then show ?thesis
      by (simp add: slice_to_def prefix_take_le)
  next
    case 2
    then show ?thesis
      by (simp add: slice_to_def prefix_take_le)
  qed
  with False show ?thesis by simp
qed

lemma rank_nodes_prefix_iff:
  "prefix (rank_nodes sc k) (rank_nodes sc (k + 1)) \<longleftrightarrow> k \<noteq> - 1 \<or> length sc \<le> 1"
  by (simp only: rank_nodes_def slice_to_prefix_iff length_sorted_nodes)

lemma map_fst_in_degree: "map fst (in_degree g) = nodes g"
  by (simp add: in_degree_def comp_def)

lemma scenario_graph:
  "build_mention_graph scenario_batch =
     \<lparr>is_directed = True, nodes = [''u1'', ''u2''],
      edges = [((''u1'', ''u2''), 2), ((''u2'', ''u1''), 1)]\<rparr>"
  by code_simp

lemma self_graph:
  "build_mention_graph self_batch =
     \<lparr>is_directed = True, nodes = [''u1''], edges = [((''u1'', ''u1''), 1)]\<rparr>"
  by code_simp

lemma scenario_degree_scores:
  "map (\<lambda>(n, d). (n, of_int d)) (in_degree (build_mention_graph scenario_batch))
     = [(''u1'', 1), (''u2'', 1 :: rat)]"
  by (simp add: scenario_graph in_degree_def)

lemma sorted_nodes_scenario:
  "sorted_nodes [(''u1'', 1), (''u2'', 1 :: rat)] = [(''u1'', 1), (''u2'', 1)]"
  by (simp add: sorted_nodes_def)

lemma get_top_nodes_degree:
  "number_of_nodes g \<noteq> 0 \<Longrightarrow> is_directed g \<Longrightarrow>
   get_top_nodes nx g ''degree'' n
     = Inr (rank_nodes (map (\<lambda>(v, d). (v, of_int d)) (in_degree g)) n)"
  by (simp add: get_top_nodes_def)

text \<open>
  The eigenvector branch (line 161) has no handler: what the library call raises is
  what \<^verbatim>\<open>get_top_nodes\<close> raises, and a returned score list is ranked like any other.
\<close>

lemma get_top_nodes_eigenvector:
  "number_of_nodes g \<noteq> 0 \<Longrightarrow>
   get_top_nodes nx g ''eigenvector'' n
     = (case eigenvector_centrality nx g 1000 of
          Inl e \<Rightarrow> Inl e | Inr node_scores \<Rightarrow> Inr (rank_nodes node_scores n))"
  by (simp add: get_top_nodes_def)

lemma chain_graph:
  "build_mention_graph chain_batch =
     \<lparr>is_directed = True, nodes = [''u1'', ''u2'', ''u3''],
      edges = [((''u1'', ''u1''), 1), ((''u1'', ''u2''), 1), ((''u2'', ''u2''), 1),
               ((''u2'', ''u3''), 1), ((''u3'', ''u3''), 1)]\<rparr>"
  by code_simp

section \<open>Claims about the ranking\<close>

text \<open>
  Claim C4, as amended. The ranking sorts the scores in descending order, keeps every
  entry, and leaves entries with equal scores in the order in which they were given,
  which for the degree metric is the order in which the nodes entered the graph. For
  \<open>n \<ge> 0\<close> the result is the first \<open>n\<close> sorted entries: none for \<open>n = 0\<close>, all of them for
  \<open>n\<close> greater than the node count. For \<open>n < 0\<close> the result is the sorted sequence
  without its last \<open>- n\<close> entries, as the slice of line 167 gives it.
\<close>

theorem get_top_nodes_ranking:
  "sorted_wrt (\<lambda>x y. snd y \<le> snd x) (sorted_nodes node_scores)
   \<and> mset (sorted_nodes node_scores) = mset node_scores
   \<and> filter (\<lambda>x. snd x = k) (sorted_nodes node_scores) = filter (\<lambda>x. snd x = k) node_scores
   \<and> (0 \<le> n \<longrightarrow> rank_nodes node_scores n = take (nat n) (sorted_nodes node_scores))
   \<and> (n < 0 \<longrightarrow> rank_nodes node_scores n
          = take (length node_scores - nat (- n)) (sorted_nodes node_scores))
   \<and> (n = 0 \<longrightarrow> rank_nodes node_scores n = [])
   \<and> (int (length node_scores) < n \<longrightarrow> rank_nodes node_scores n = sorted_nodes node_scores)
   \<and> (number_of_nodes g \<noteq> 0 \<and> is_directed g \<longrightarrow>
        get_top_nodes nx g ''degree'' n
          = Inr (rank_nodes (map (\<lambda>(v, d). (v, of_int d)) (in_degree g)) n)
        \<and> map fst (in_degree g) = nodes g)"
proof (intro conjI impI)
  show "sorted_wrt (\<lambda>x y. snd y \<le> snd x) (sorted_nodes node_scores)"
    by (rule sorted_nodes_descending)
  show "mset (sorted_nodes node_scores) = mset node_scores"
    by (rule mset_sorted_nodes)
  show "filter (\<lambda>x. snd x = k) (sorted_nodes node_scores) = filter (\<lambda>x. snd x = k) node_scores"
    by (rule sorted_nodes_stable)
  show "rank_nodes node_scores n = take (nat n) (sorted_nodes node_scores)" if "0 \<le> n"
    using that by (simp add: rank_nodes_def slice_to_nonneg)
  show "rank_nodes node_scores n
          = take (length node_scores - nat (- n)) (sorted_nodes node_scores)" if "n < 0"
    using that by (simp add: rank_nodes_def slice_to_neg length_sorted_nodes)
  show "rank_nodes node_scores n = []" if "n = 0"
    using that by (simp add: rank_nodes_def slice_to_def)
  show "rank_nodes node_scores n = sorted_nodes node_scores" if "int (length node_scores) < n"
    using that by (simp add: rank_nodes_def slice_to_def length_sorted_nodes)
  show "get_top_nodes nx g ''degree'' n
          = Inr (rank_nodes (map (\<lambda>(v, d). (v, of_int d)) (in_degree g)) n)"
    if "number_of_nodes g \<noteq> 0 \<and> is_directed g"
    using that by (simp add: get_top_nodes_degree)
  show "map fst (in_degree g) = nodes g"
    by (rule map_fst_in_degree)
qed

theorem get_top_nodes_ranking_witness:
  "number_of_nodes (build_mention_graph scenario_batch) \<noteq> 0
   \<and> is_directed (build_mention_graph scenario_batch)
   \<and> get_top_nodes nx_stub (build_mention_graph scenario_batch) ''degree'' 1 = Inr [(''u1'', 1)]
   \<and> rank_nodes [(''u1'', 1), (''u2'', 1)] 5 = [(''u1'', 1), (''u2'', 1)]
   \<and> rank_nodes [(''u1'', 1), (''u2'', 1)] (- 2) = []
   \<and> rank_nodes [(''u1'', 1), (''u2'', 1)] 0 = []"
proof -
  let ?g = "build_mention_graph scenario_batch"
  let ?sc = "[(''u1'', 1), (''u2'', 1 :: rat)]"
  have h: "number_of_nodes ?g \<noteq> 0 \<and> is_directed ?g"
    by (simp add: scenario_graph number_of_nodes_def)
  note a = get_top_nodes_ranking [of ?sc 0 1 ?g nx_stub]
  note b = get_top_nodes_ranking [of ?sc 0 5 ?g nx_stub]
  note c = get_top_nodes_ranking [of ?sc 0 "- 2" ?g nx_stub]
  note d = get_top_nodes_ranking [of ?sc 0 0 ?g nx_stub]
  have "get_top_nodes nx_stub ?g ''degree'' 1
      = Inr (rank_nodes (map (\<lambda>(v, d). (v, of_int d)) (in_degree ?g)) 1)"
    using a h by blast
  moreover have "rank_nodes ?sc 1 = take (nat 1) (sorted_nodes ?sc)"
    using a by simp
  ultimately have 1: "get_top_nodes nx_stub ?g ''degree'' 1 = Inr [(''u1'', 1)]"
    by (simp add: scenario_degree_scores sorted_nodes_scenario)
  have 2: "rank_nodes ?sc 5 = [(''u1'', 1), (''u2'', 1)]"
    using b by (simp add: sorted_nodes_scenario)
  have "rank_nodes ?sc (- 2) = take (length ?sc - nat (- (- 2))) (sorted_nodes ?sc)"
    using c by simp
  then have 3: "rank_nodes ?sc (- 2) = []"
    by simp
  have 4: "rank_nodes ?sc 0 = []"
    using d by simp
  from h 1 2 3 4 show ?thesis by blast
qed

text \<open>
  Claim C4 as stated fails for a negative \<open>n\<close>: on the two-node mention graph of
  section 8 of the specification, \<open>n = - 1\<close> returns one entry, not the empty sequence.
\<close>

theorem get_top_nodes_ranking_counterexample:
  "number_of_nodes (build_mention_graph scenario_batch) = 2
   \<and> get_top_nodes nx_stub (build_mention_graph scenario_batch) ''degree'' (- 1)
       = Inr [(''u1'', 1)]"
  by (simp add: scenario_graph number_of_nodes_def get_top_nodes_def in_degree_def
      rank_nodes_def sorted_nodes_def slice_to_def)

text \<open>
  Claim C8, as amended. The ranking for \<open>k\<close> is a prefix of the ranking for \<open>k + 1\<close>
  exactly when \<open>k \<noteq> - 1\<close> or there is at most one node; so for every \<open>k\<close> other than
  \<open>- 1\<close>, on every graph and for every metric, \<^verbatim>\<open>get_top_nodes\<close> with \<open>k\<close> and with
  \<open>k + 1\<close> either raise the same library error or return a sequence and an extension
  of it.
\<close>

theorem get_top_nodes_prefix:
  "(prefix (rank_nodes node_scores k) (rank_nodes node_scores (k + 1))
      \<longleftrightarrow> k \<noteq> - 1 \<or> length node_scores \<le> 1)
   \<and> (k \<noteq> - 1 \<longrightarrow>
        rel_sum (=) prefix (get_top_nodes nx g metric k) (get_top_nodes nx g metric (k + 1)))"
proof (intro conjI impI)
  show "prefix (rank_nodes node_scores k) (rank_nodes node_scores (k + 1))
      \<longleftrightarrow> k \<noteq> - 1 \<or> length node_scores \<le> 1"
    by (rule rank_nodes_prefix_iff)
  assume k: "k \<noteq> - 1"
  have p: "prefix (rank_nodes sc k) (rank_nodes sc (k + 1))" for sc
    using k by (simp add: rank_nodes_prefix_iff)
  show "rel_sum (=) prefix (get_top_nodes nx g metric k) (get_top_nodes nx g metric (k + 1))"
    unfolding get_top_nodes_def
    by (cases "eigenvector_centrality nx g 1000") (simp_all add: p)
qed

theorem get_top_nodes_prefix_witness:
  "prefix (rank_nodes [(''u1'', 1), (''u2'', 1)] 1) (rank_nodes [(''u1'', 1), (''u2'', 1)] (1 + 1))
   \<and> rel_sum (=) prefix
        (get_top_nodes nx_stub (build_mention_graph scenario_batch) ''degree'' (- 3))
        (get_top_nodes nx_stub (build_mention_graph scenario_batch) ''degree'' (- 3 + 1))"
proof -
  note a = get_top_nodes_prefix
    [of "[(''u1'', 1), (''u2'', 1)]" 1 nx_stub "build_mention_graph scenario_batch" "''degree''"]
  note b = get_top_nodes_prefix
    [of "[(''u1'', 1), (''u2'', 1)]" "- 3" nx_stub "build_mention_graph scenario_batch" "''degree''"]
  have "(1 :: int) \<noteq> - 1" and "(- 3 :: int) \<noteq> - 1"
    by simp_all
  with a b show ?thesis by blast
qed

text \<open>
  Claim C8 as stated fails at \<open>k = - 1\<close>: the ranking for \<open>- 1\<close> drops only the last
  entry, the ranking for \<open>0\<close> is empty.
\<close>

theorem get_top_nodes_prefix_counterexample:
  "get_top_nodes nx_stub (build_mention_graph scenario_batch) ''degree'' (- 1)
     = Inr [(''u1'', 1)]
   \<and> get_top_nodes nx_stub (build_mention_graph scenario_batch) ''degree'' (- 1 + 1) = Inr []
   \<and> \<not> prefix [(''u1'', 1 :: rat)] []"
  by (simp add: scenario_graph number_of_nodes_def get_top_nodes_def in_degree_def
      rank_nodes_def sorted_nodes_def slice_to_def)

text \<open>
  Claim C9, as amended. A metric name other than the four known ones is not rejected:
  line 163 returns the empty list, an ordinary result, whatever the graph and \<open>n\<close> are,
  and without calling the library.
\<close>

theorem get_top_nodes_unknown_metric:
  "metric \<notin> {''degree'', ''betweenness'', ''closeness'', ''eigenvector''} \<Longrightarrow>
   get_top_nodes nx g metric n = Inr []"
  by (simp add: get_top_nodes_def)

theorem get_top_nodes_unknown_metric_witness:
  "''pagerank'' \<notin> {''degree'', ''betweenness'', ''closeness'', ''eigenvector''}
   \<and> get_top_nodes nx_stub (build_mention_graph self_batch) ''pagerank'' 3 = Inr []"
proof -
  have h: "''pagerank'' \<notin> {''degree'', ''betweenness'', ''closeness'', ''eigenvector''}"
    by simp
  from h get_top_nodes_unknown_metric [OF h, of nx_stub "build_mention_graph self_batch" 3]
  show ?thesis by (rule conjI)
qed

text \<open>
  Claim C9 as stated fails: on a graph with two nodes the unknown metric
  \<open>pagerank\<close> yields the ordinary result \<open>[]\<close>, the same value that a valid request
  on the empty graph returns.
\<close>

theorem get_top_nodes_unknown_metric_counterexample:
  "number_of_nodes (build_mention_graph scenario_batch) = 2
   \<and> get_top_nodes nx_stub (build_mention_graph scenario_batch) ''pagerank'' 10 = Inr []
   \<and> get_top_nodes nx_stub (build_mention_graph scenario_batch) ''pagerank'' 10
       = get_top_nodes nx_stub DiGraph ''degree'' 10"
  by (simp add: scenario_graph number_of_nodes_def get_top_nodes_def DiGraph_def)

section \<open>Claims about the eigenvector centrality\<close>

text \<open>
  Claim C5, as amended. When the power iteration has not met the tolerance after the
  cap of 1000 rounds, the library raises \<^verbatim>\<open>PowerIterationFailedConvergence\<close> and
  \<^verbatim>\<open>get_top_nodes\<close> lets it through: the call raises, and returns neither the last
  iterate nor a flag. When the iteration converges, the call returns the ranked list
  of \<open>(node, score)\<close> pairs and nothing else.
\<close>

theorem get_top_nodes_nonconvergence:
  "number_of_nodes g \<noteq> 0 \<Longrightarrow>
   (eigenvector_centrality nx g 1000 = Inl PowerIterationFailedConvergence \<longrightarrow>
      get_top_nodes nx g ''eigenvector'' n = Inl PowerIterationFailedConvergence)
   \<and> (eigenvector_centrality nx g 1000 = Inr node_scores \<longrightarrow>
      get_top_nodes nx g ''eigenvector'' n = Inr (rank_nodes node_scores n))"
  by (simp add: get_top_nodes_eigenvector)

theorem get_top_nodes_nonconvergence_witness:
  "number_of_nodes (build_mention_graph chain_batch) \<noteq> 0
   \<and> eigenvector_centrality nx_unconverged (build_mention_graph chain_batch) 1000
       = Inl PowerIterationFailedConvergence
   \<and> get_top_nodes nx_unconverged (build_mention_graph chain_batch) ''eigenvector'' 1
       = Inl PowerIterationFailedConvergence"
proof -
  have h: "number_of_nodes (build_mention_graph chain_batch) \<noteq> 0"
    by (simp add: chain_graph number_of_nodes_def)
  have e: "eigenvector_centrality nx_unconverged (build_mention_graph chain_batch) 1000
       = Inl PowerIterationFailedConvergence"
    by (simp add: nx_unconverged_def)
  from get_top_nodes_nonconvergence [OF h, where nx = nx_unconverged and n = 1 and node_scores = "[]"] e
  have "get_top_nodes nx_unconverged (build_mention_graph chain_batch) ''eigenvector'' 1
       = Inl PowerIterationFailedConvergence"
    by blast
  with h e show ?thesis by blast
qed

text \<open>
  Claim C5 as stated fails: on the chain of three users, in a run in which the
  iteration does not converge within the cap, a request for the ten highest
  eigenvector scores raises instead of returning flagged scores.
\<close>

theorem get_top_nodes_nonconvergence_counterexample:
  "number_of_nodes (build_mention_graph chain_batch) = 3
   \<and> eigenvector_centrality nx_unconverged (build_mention_graph chain_batch) 1000
       = Inl PowerIterationFailedConvergence
   \<and> get_top_nodes nx_unconverged (build_mention_graph chain_batch) ''eigenvector'' 10
       = Inl PowerIterationFailedConvergence"
  by (simp add: chain_graph number_of_nodes_def get_top_nodes_def nx_unconverged_def)

section \<open>Claims about the metrics\<close>

text \<open>
  Claim C6, as amended. For a graph with no nodes \<^verbatim>\<open>calculate_graph_metrics\<close> returns
  the empty dictionary, without failing: it has no statistics, neither a node count
  nor a density. For a graph with exactly one node the density entry is 0.
\<close>

theorem calculate_graph_metrics_small:
  "(number_of_nodes g = 0 \<longrightarrow> calculate_graph_metrics nx g = [])
   \<and> (number_of_nodes g = 1 \<longrightarrow>
        map_of (calculate_graph_metrics nx g) ''density'' = Some (FloatVal 0))"
  by (simp add: calculate_graph_metrics_def Let_def density_def)

theorem calculate_graph_metrics_small_witness:
  "number_of_nodes DiGraph = 0
   \<and> calculate_graph_metrics nx_stub DiGraph = []
   \<and> number_of_nodes (build_mention_graph self_batch) = 1
   \<and> map_of (calculate_graph_metrics nx_stub (build_mention_graph self_batch)) ''density''
       = Some (FloatVal 0)"
proof -
  have h0: "number_of_nodes DiGraph = 0"
    by (simp add: number_of_nodes_def DiGraph_def)
  have h1: "number_of_nodes (build_mention_graph self_batch) = 1"
    by (simp add: self_graph number_of_nodes_def)
  from h0 calculate_graph_metrics_small [of DiGraph nx_stub]
  have c0: "calculate_graph_metrics nx_stub DiGraph = []"
    by blast
  from h1 calculate_graph_metrics_small [of "build_mention_graph self_batch" nx_stub]
  have c1: "map_of (calculate_graph_metrics nx_stub (build_mention_graph self_batch)) ''density''
       = Some (FloatVal 0)"
    by blast
  from h0 c0 h1 c1 show ?thesis by blast
qed

text \<open>
  Claim C6 as stated fails: for the empty graph the result has no entry at all, so
  the statistics are not 0 but absent.
\<close>

theorem calculate_graph_metrics_small_counterexample:
  "number_of_nodes DiGraph = 0
   \<and> calculate_graph_metrics nx_stub DiGraph = []
   \<and> map_of (calculate_graph_metrics nx_stub DiGraph) ''nodes'' = None
   \<and> map_of (calculate_graph_metrics nx_stub DiGraph) ''density'' = None"
  by (simp add: calculate_graph_metrics_def number_of_nodes_def DiGraph_def)

end
